theory Spec2Isabelle
  imports Complex_Main "HOL-Library.AList"
begin

section \<open>JavaScript values and property reads\<close>

text \<open>
  The provider and the chat hook are TypeScript; at run time they are JavaScript, and the
  dispatch code indexes plain objects and parsed JSON by strings chosen elsewhere (by the
  application and by the completion service). A read \<^verbatim>\<open>v[k]\<close> looks at the own
  properties of \<open>v\<close> and then along its prototype chain, so the embedding keeps both.

  \<open>json\<close> is what \<^verbatim>\<open>JSON.parse\<close> can return. Numbers are reals: none of the code
  below inspects a number, and the only number it can produce itself is an array's
  length. A string is a sequence of code units. The pairs of an object are its own
  properties; the parser keeps one value for a key, so the keys of an object are
  distinct.
\<close>

datatype json =
    JNull
  | JBool bool
  | JNum real
  | JStr string
  | JArr "json list"
  | JObj "(string \<times> json) list"

text \<open>
  A value handed to an entry point's implementation: \<^verbatim>\<open>undefined\<close>, a piece of parsed
  JSON, or a built-in function or object reached through a prototype (named by its path,
  as in \<^verbatim>\<open>Object.prototype.toString\<close>).
\<close>

datatype jsval =
    Undefined
  | Json json
  | Builtin string

text \<open>What the modelled code can throw, or reject a promise with.\<close>

datatype exn =
    TypeError
  | SyntaxError
  | DOMException string string
  | Other jsval

subsection \<open>The built-in prototype objects\<close>

text \<open>
  The string-keyed properties of the standard prototype objects (ECMA-262 with its
  Annex B). Only the names matter: every one of them holds a function, except
  \<^verbatim>\<open>__proto__\<close>, an accessor on \<^verbatim>\<open>Object.prototype\<close> that reads and sets the
  receiver's prototype.
\<close>

definition Object_prototype_names :: "string list" where
  "Object_prototype_names =
    [''constructor'', ''hasOwnProperty'', ''isPrototypeOf'', ''propertyIsEnumerable'',
     ''toLocaleString'', ''toString'', ''valueOf'', ''__proto__'',
     ''__defineGetter__'', ''__defineSetter__'', ''__lookupGetter__'', ''__lookupSetter__'']"

definition Array_prototype_names :: "string list" where
  "Array_prototype_names =
    [''at'', ''concat'', ''constructor'', ''copyWithin'', ''entries'', ''every'', ''fill'',
     ''filter'', ''find'', ''findIndex'', ''findLast'', ''findLastIndex'', ''flat'',
     ''flatMap'', ''forEach'', ''includes'', ''indexOf'', ''join'', ''keys'',
     ''lastIndexOf'', ''map'', ''pop'', ''push'', ''reduce'', ''reduceRight'', ''reverse'',
     ''shift'', ''slice'', ''some'', ''sort'', ''splice'', ''toLocaleString'',
     ''toReversed'', ''toSorted'', ''toSpliced'', ''toString'', ''unshift'', ''values'',
     ''with'']"

definition String_prototype_names :: "string list" where
  "String_prototype_names =
    [''at'', ''charAt'', ''charCodeAt'', ''codePointAt'', ''concat'', ''constructor'',
     ''endsWith'', ''includes'', ''indexOf'', ''isWellFormed'', ''lastIndexOf'',
     ''localeCompare'', ''match'', ''matchAll'', ''normalize'', ''padEnd'', ''padStart'',
     ''repeat'', ''replace'', ''replaceAll'', ''search'', ''slice'', ''split'',
     ''startsWith'', ''substring'', ''toLocaleLowerCase'', ''toLocaleUpperCase'',
     ''toLowerCase'', ''toString'', ''toUpperCase'', ''toWellFormed'', ''trim'',
     ''trimEnd'', ''trimStart'', ''valueOf'',
     ''substr'', ''anchor'', ''big'', ''blink'', ''bold'', ''fixed'', ''fontcolor'',
     ''fontsize'', ''italics'', ''link'', ''small'', ''strike'', ''sub'', ''sup'',
     ''trimLeft'', ''trimRight'']"

definition Number_prototype_names :: "string list" where
  "Number_prototype_names =
    [''constructor'', ''toExponential'', ''toFixed'', ''toLocaleString'', ''toPrecision'',
     ''toString'', ''valueOf'']"

definition Boolean_prototype_names :: "string list" where
  "Boolean_prototype_names = [''constructor'', ''toString'', ''valueOf'']"

text \<open>A prototype chain, nearest prototype first: each link is a name and its properties.\<close>

type_synonym chain = "(string \<times> string list) list"

definition Object_chain :: chain where
  "Object_chain = [(''Object'', Object_prototype_names)]"

definition Array_chain :: chain where
  "Array_chain = (''Array'', Array_prototype_names) # Object_chain"

definition String_chain :: chain where
  "String_chain = (''String'', String_prototype_names) # Object_chain"

definition Number_chain :: chain where
  "Number_chain = (''Number'', Number_prototype_names) # Object_chain"

definition Boolean_chain :: chain where
  "Boolean_chain = (''Boolean'', Boolean_prototype_names) # Object_chain"

fun lookup_chain :: "chain \<Rightarrow> string \<Rightarrow> jsval" where
  "lookup_chain [] k = Undefined"
| "lookup_chain ((p, names) # ps) k =
     (if k \<in> set names then Builtin (p @ ''.prototype.'' @ k) else lookup_chain ps k)"

text \<open>
  A property that is not an own property of the receiver: \<^verbatim>\<open>__proto__\<close> reads the
  receiver's prototype (the head of its chain), any other name is searched along the
  chain, and a name no prototype has reads as \<^verbatim>\<open>undefined\<close>.
\<close>

definition inherited :: "chain \<Rightarrow> string \<Rightarrow> jsval" where
  "inherited c k =
     (if k = ''__proto__'' then Builtin (fst (hd c) @ ''.prototype'') else lookup_chain c k)"

subsection \<open>Array indices\<close>

text \<open>
  A property name is an array index when it is the canonical decimal numeral of an
  integer below \<open>2\<^sup>3\<^sup>2 - 1\<close>: \<^verbatim>\<open>"0"\<close> and \<^verbatim>\<open>"17"\<close> are, \<^verbatim>\<open>"017"\<close> and
  \<^verbatim>\<open>"-1"\<close> are not. Arrays and strings keep their elements under these names, and
  every object lists them first when its own properties are enumerated.
\<close>

definition is_digit :: "char \<Rightarrow> bool" where
  "is_digit c = (48 \<le> (of_char c :: nat) \<and> (of_char c :: nat) \<le> 57)"

definition digits_value :: "string \<Rightarrow> nat" where
  "digits_value s = foldl (\<lambda>n c. 10 * n + (of_char c - 48)) 0 s"

definition array_index :: "string \<Rightarrow> nat option" where
  "array_index s =
     (if s = [] then None
      else if list_all is_digit s then
        (if hd s = CHR ''0'' then (if s = ''0'' then Some 0 else None)
         else if digits_value s < 4294967295 then Some (digits_value s) else None)
      else None)"

subsection \<open>Reading a property of a JSON value\<close>

text \<open>
  \<^verbatim>\<open>v[k]\<close> for a value \<open>v\<close> that \<^verbatim>\<open>JSON.parse\<close> returned, or for the array
  literal \<^verbatim>\<open>[]\<close>. Reading a property of \<^verbatim>\<open>null\<close> throws a TypeError. An object has
  the own properties of its text (\<^verbatim>\<open>JSON.parse\<close> defines them as data properties, also
  one named \<^verbatim>\<open>__proto__\<close>); an array has its elements and \<^verbatim>\<open>length\<close>; a string has
  its code units and \<^verbatim>\<open>length\<close>. Everything else comes from the prototype chain.
\<close>

definition get_property :: "json \<Rightarrow> string \<Rightarrow> exn + jsval" where
  "get_property v k =
     (case v of
        JNull \<Rightarrow> Inl TypeError
      | JBool b \<Rightarrow> Inr (inherited Boolean_chain k)
      | JNum x \<Rightarrow> Inr (inherited Number_chain k)
      | JStr s \<Rightarrow>
          (if k = ''length'' then Inr (Json (JNum (real (length s))))
           else (case array_index k of
                   Some i \<Rightarrow> if i < length s then Inr (Json (JStr [s ! i]))
                             else Inr (inherited String_chain k)
                 | None \<Rightarrow> Inr (inherited String_chain k)))
      | JArr xs \<Rightarrow>
          (if k = ''length'' then Inr (Json (JNum (real (length xs))))
           else (case array_index k of
                   Some i \<Rightarrow> if i < length xs then Inr (Json (xs ! i))
                             else Inr (inherited Array_chain k)
                 | None \<Rightarrow> Inr (inherited Array_chain k)))
      | JObj kvs \<Rightarrow>
          (case map_of kvs k of
             Some x \<Rightarrow> Inr (Json x)
           | None \<Rightarrow> Inr (inherited Object_chain k)))"

subsection \<open>Plain objects used as dictionaries\<close>

text \<open>
  An object created by the literal \<^verbatim>\<open>{}\<close> and filled by assignments
  \<^verbatim>\<open>o[k] = v\<close> whose values are objects. Such an assignment creates or overwrites the
  own property \<open>k\<close>, except for \<^verbatim>\<open>k = "__proto__"\<close>: that name is the accessor
  inherited from \<^verbatim>\<open>Object.prototype\<close>, and assigning an object to it replaces the
  prototype of \<open>o\<close> and creates no own property. \<open>proto = None\<close> stands for the initial
  prototype, \<^verbatim>\<open>Object.prototype\<close>.
\<close>

record 'v plain_object =
  own :: "string \<Rightarrow> 'v option"
  proto :: "'v option"

definition empty_object :: "'v plain_object" where
  "empty_object = \<lparr>own = (\<lambda>k. None), proto = None\<rparr>"

definition assign :: "'v plain_object \<Rightarrow> string \<Rightarrow> 'v \<Rightarrow> 'v plain_object" where
  "assign obj k v =
     (if k = ''__proto__'' then obj\<lparr>proto := Some v\<rparr>
      else obj\<lparr>own := (own obj)(k \<mapsto> v)\<rparr>)"

section \<open>The data model of the dispatch registry\<close>

text \<open>
  \<^verbatim>\<open>AnnotatedFunction\<close> and its argument annotations are declared outside the two
  source files; their fields are the ones the provider reads. \<open>forwardedArgs\<close> is what
  the destructuring \<^verbatim>\<open>let { name, required, ...forwardedArgs } = arg\<close> leaves of an
  annotation (its type metadata), and \<open>'i\<close> is the type of implementations, which the
  provider only calls. Record fields share one name space: the \<^verbatim>\<open>name\<close> of an
  annotation is \<open>arg_name\<close> here, the \<^verbatim>\<open>name\<close> of a function call \<open>fc_name\<close>.
\<close>

record 'm ArgumentAnnotation =
  arg_name :: string
  required :: bool
  forwardedArgs :: 'm

record ('m, 'i) AnnotatedFunction =
  name :: string
  description :: string
  argumentAnnotations :: "'m ArgumentAnnotation list"
  implementation :: 'i

text \<open>The function call of an assistant message: both fields are optional.\<close>

record FunctionCall =
  fc_name :: "string option"
  arguments :: "string option"

section \<open>The registry of entry points\<close>

text \<open>
  The provider keeps the entry points in a React state cell holding a plain object keyed
  by registration id. The object is never assigned to: \<open>setEntryPoint\<close> and
  \<open>removeEntryPoint\<close> build a new one with a spread, a computed key and \<^verbatim>\<open>delete\<close>,
  all of which work on own properties only (a computed key \<^verbatim>\<open>__proto__\<close> is an own
  property like any other). So the registry is an association list, in the order its
  properties were created.

  Enumerating an object (\<^verbatim>\<open>Object.values\<close>, a spread) does not follow creation order
  alone: the array indices come first, in ascending order, then the other names in the
  order they were created.
\<close>

type_synonym ('m, 'i) registry = "(string \<times> ('m, 'i) AnnotatedFunction) list"

definition index_of_key :: "string \<Rightarrow> nat" where
  "index_of_key k = (case array_index k of Some i \<Rightarrow> i | None \<Rightarrow> 0)"

definition is_index_key :: "string \<Rightarrow> bool" where
  "is_index_key k = (case array_index k of Some i \<Rightarrow> True | None \<Rightarrow> False)"

definition own_property_order :: "(string \<times> 'v) list \<Rightarrow> (string \<times> 'v) list" where
  "own_property_order kvs =
     sort_key (\<lambda>kv. index_of_key (fst kv)) (filter (\<lambda>kv. is_index_key (fst kv)) kvs)
     @ filter (\<lambda>kv. \<not> is_index_key (fst kv)) kvs"


text \<open>
  \<^verbatim>\<open>{ ...prevPoints, [id]: entryPoint }\<close>: the spread copies the properties of the
  previous object in enumeration order; the computed key then overwrites the property
  \<open>id\<close> where it stands, or creates it last.
\<close>

definition setEntryPoint ::
  "string \<Rightarrow> ('m, 'i) AnnotatedFunction \<Rightarrow> ('m, 'i) registry \<Rightarrow> ('m, 'i) registry" where
  "setEntryPoint ident entryPoint prevPoints =
     AList.update ident entryPoint (own_property_order prevPoints)"

text \<open>\<^verbatim>\<open>const newPoints = { ...prevPoints }; delete newPoints[id]\<close>\<close>

definition removeEntryPoint :: "string \<Rightarrow> ('m, 'i) registry \<Rightarrow> ('m, 'i) registry" where
  "removeEntryPoint ident prevPoints = AList.delete ident (own_property_order prevPoints)"

section \<open>Schema compilation\<close>

text \<open>
  The schema of one entry point, as \<open>annotatedFunctionToChatCompletionFunction\<close> builds
  it. The fields are \<^verbatim>\<open>name\<close>, \<^verbatim>\<open>description\<close> and \<^verbatim>\<open>parameters\<close>, the latter with
  \<^verbatim>\<open>type\<close>, \<^verbatim>\<open>properties\<close> and \<^verbatim>\<open>required\<close>; the fields that would clash with
  those of the entry point carry a prefix here.
\<close>

record 'm FunctionParameters =
  parameters_type :: string
  properties :: "'m plain_object"
  parameters_required :: "string list"

record 'm ChatCompletionFunction =
  function_name :: string
  function_description :: string
  parameters :: "'m FunctionParameters"

text \<open>
  The first loop assigns \<^verbatim>\<open>parameters[arg.name] = forwardedArgs\<close> for each annotation in
  turn, starting from \<^verbatim>\<open>{}\<close>; the second collects the names of the annotations whose
  \<^verbatim>\<open>required\<close> is true.
\<close>

definition annotatedFunctionToChatCompletionFunction ::
  "('m, 'i) AnnotatedFunction \<Rightarrow> 'm ChatCompletionFunction" where
  "annotatedFunctionToChatCompletionFunction annotatedFunction =
     \<lparr>function_name = name annotatedFunction,
      function_description = description annotatedFunction,
      parameters =
        \<lparr>parameters_type = ''object'',
         properties =
           foldl (\<lambda>ps arg. assign ps (arg_name arg) (forwardedArgs arg)) empty_object
             (argumentAnnotations annotatedFunction),
         parameters_required =
           map arg_name (filter required (argumentAnnotations annotatedFunction))\<rparr>\<rparr>"



section \<open>Call dispatch\<close>

text \<open>
  The handler first files the entry points by name in a fresh object
  \<open>entrypointsByFunctionName\<close> and reads the called name from it. What such a read
  returns: an entry point (an own property, or the object's prototype when the name is
  \<^verbatim>\<open>__proto__\<close> and an entry point of that name was filed), \<^verbatim>\<open>undefined\<close>, or a value
  that is not an entry point and comes from the prototype chain: a function of
  \<^verbatim>\<open>Object.prototype\<close>, that object itself, or a field of an entry point that was made
  the prototype. Of the last kind the handler only tests the truthiness (a string is
  truthy when it is not empty, objects and functions always are), so that is what is kept.
\<close>

datatype 'e table_value =
    NoValue
  | EntryPoint 'e
  | Inherited bool

definition read_entry ::
  "('m, 'i) AnnotatedFunction plain_object \<Rightarrow> string \<Rightarrow> ('m, 'i) AnnotatedFunction table_value" where
  "read_entry obj k =
     (case own obj k of
        Some e \<Rightarrow> EntryPoint e
      | None \<Rightarrow>
          (case proto obj of
             None \<Rightarrow> if k \<in> set Object_prototype_names then Inherited True else NoValue
           | Some e \<Rightarrow>
               if k = ''__proto__'' then EntryPoint e
               else if k = ''name'' then Inherited (name e \<noteq> [])
               else if k = ''description'' then Inherited (description e \<noteq> [])
               else if k = ''argumentAnnotations'' then Inherited True
               else if k = ''implementation'' then Inherited True
               else if k \<in> set Object_prototype_names then Inherited True
               else NoValue))"

text \<open>
  \<^verbatim>\<open>let functionCallArguments = []; if (functionCall.arguments) functionCallArguments =
  JSON.parse(functionCall.arguments)\<close>. The parser is the environment's; \<open>None\<close> is the
  SyntaxError it throws. An absent and an empty string are both falsy.
\<close>

definition functionCallArguments :: "(string \<Rightarrow> json option) \<Rightarrow> FunctionCall \<Rightarrow> json option" where
  "functionCallArguments parse functionCall =
     (case arguments functionCall of
        None \<Rightarrow> Some (JArr [])
      | Some s \<Rightarrow> if s = [] then Some (JArr []) else parse s)"

text \<open>The loop that pushes \<^verbatim>\<open>functionCallArguments[arg.name]\<close> for each annotation.\<close>

fun paramsInCorrectOrder :: "json \<Rightarrow> 'm ArgumentAnnotation list \<Rightarrow> exn + jsval list" where
  "paramsInCorrectOrder args [] = Inr []"
| "paramsInCorrectOrder args (arg # rest) =
     (case get_property args (arg_name arg) of
        Inl e \<Rightarrow> Inl e
      | Inr v \<Rightarrow>
          (case paramsInCorrectOrder args rest of
             Inl e \<Rightarrow> Inl e
           | Inr vs \<Rightarrow> Inr (v # vs)))"

text \<open>
  What one run of the handler does: nothing, throw before any call, or call an
  implementation with a list of positional arguments (the handler awaits that call and
  settles as it does).
\<close>

datatype 'i outcome =
    Nothing
  | Throws exn
  | Invokes 'i "jsval list"

text \<open>
  A truthy value that is not an entry point has no \<^verbatim>\<open>argumentAnnotations\<close>, and the
  loop over \<^verbatim>\<open>undefined\<close> throws a TypeError, after the arguments were parsed.
\<close>

definition entryPointsToFunctionCallHandler ::
  "(string \<Rightarrow> json option) \<Rightarrow> ('m, 'i) AnnotatedFunction list \<Rightarrow> FunctionCall \<Rightarrow> 'i outcome" where
  "entryPointsToFunctionCallHandler parse entryPoints functionCall =
     (let entrypointsByFunctionName =
            foldl (\<lambda>obj entryPoint. assign obj (name entryPoint) entryPoint) empty_object entryPoints;
          entryPointFunction =
            read_entry entrypointsByFunctionName
              (case fc_name functionCall of None \<Rightarrow> [] | Some n \<Rightarrow> n)
      in case entryPointFunction of
           NoValue \<Rightarrow> Nothing
         | Inherited truthy \<Rightarrow>
             if truthy then
               (case functionCallArguments parse functionCall of
                  None \<Rightarrow> Throws SyntaxError
                | Some args \<Rightarrow> Throws TypeError)
             else Nothing
         | EntryPoint e \<Rightarrow>
             (case functionCallArguments parse functionCall of
                None \<Rightarrow> Throws SyntaxError
              | Some args \<Rightarrow>
                  (case paramsInCorrectOrder args (argumentAnnotations e) of
                     Inl x \<Rightarrow> Throws x
                   | Inr ps \<Rightarrow> Invokes (implementation e) ps)))"


section \<open>The chat hook\<close>

subsection \<open>Messages and hook state\<close>

text \<open>
  A message as \<open>useChat\<close> creates and copies it. The field \<^verbatim>\<open>id\<close> is \<open>msg_id\<close> here;
  the identifier and the time of a new assistant message come from \<^verbatim>\<open>nanoid()\<close> and
  \<^verbatim>\<open>new Date()\<close>, which the operations below take as arguments.
\<close>

datatype role = System | User | Assistant | Function

record Message =
  msg_id :: string
  createdAt :: "nat option"
  content :: string
  role :: role
  function_call :: "FunctionCall option"

text \<open>
  What the completion client emits: a content delta, the end of the stream, an error, or
  a function call with a name and arguments that are still a value (\<open>'a\<close>), which the
  hook serialises.
\<close>

datatype 'a client_event =
    ContentEvent string
  | EndEvent
  | ErrorEvent exn
  | FunctionEvent string 'a

datatype channel = OnContent | OnEnd | OnError | OnFunction

fun channel_of :: "'a client_event \<Rightarrow> channel" where
  "channel_of (ContentEvent c) = OnContent"
| "channel_of EndEvent = OnEnd"
| "channel_of (ErrorEvent e) = OnError"
| "channel_of (FunctionEvent n a) = OnFunction"

datatype settlement = Pending | Resolved Message | Rejected exn

text \<open>
  One call of \<open>runChatCompletion\<close> creates a promise, an abort controller, a client and an
  assistant message that its callbacks share and mutate. A \<open>cycle\<close> is that closure:
  \<open>history\<close> is the \<^verbatim>\<open>messages\<close> argument, \<open>listeners\<close> the channels of the client
  that have a callback attached, \<open>aborted\<close> the state of the controller's signal,
  \<open>request\<close> the messages handed to \<^verbatim>\<open>client.fetch\<close>.
\<close>

record cycle =
  history :: "Message list"
  assistantMessage :: Message
  listeners :: "channel list"
  aborted :: bool
  promise :: settlement
  request :: "Message list"

text \<open>
  The state of the hook: the two React state cells, the ref, and every cycle started so
  far, so that an old cycle's callbacks stay distinct from a new one's. A cell holds the
  value last set, which is the value the next render reads.
\<close>

record chat =
  messages :: "Message list"
  isLoading :: bool
  abortControllerRef :: "nat option"
  cycles :: "cycle list"

definition initial_chat :: chat where
  "initial_chat = \<lparr>messages = [], isLoading = False, abortControllerRef = None, cycles = []\<rparr>"

text \<open>
  \<open>useChat\<close> reads the two cells once in a render, into the constants \<^verbatim>\<open>messages\<close> and
  \<^verbatim>\<open>isLoading\<close>, and the \<open>append\<close> and \<open>reload\<close> it returns close over these
  constants. Setting a cell changes what the next render reads, never the constants of a
  render that exists: a helper goes on seeing what its render saw. The ref is one object
  shared by all renders.
\<close>

record render =
  rendered_messages :: "Message list"
  rendered_isLoading :: bool

definition render :: "chat \<Rightarrow> render" where
  "render s = \<lparr>rendered_messages = messages s, rendered_isLoading = isLoading s\<rparr>"

subsection \<open>The client's event emitter\<close>

text \<open>
  Modelled from the spec: the event emitter of \<^verbatim>\<open>ChatCompletionClient\<close>
  (\<^verbatim>\<open>openai/chat-completion-client\<close>, which is not among the source files). The spec
  describes it as attaching and detaching named callbacks: \<^verbatim>\<open>on\<close> attaches the callback
  of a channel, \<^verbatim>\<open>off\<close> with a channel alone detaches what is attached to it, and an
  event runs the callback of its channel if one is attached.
\<close>

definition client_on :: "channel \<Rightarrow> channel list \<Rightarrow> channel list" where
  "client_on ch ls = ch # ls"

definition client_off :: "channel \<Rightarrow> channel list \<Rightarrow> channel list" where
  "client_off ch ls = removeAll ch ls"

definition attached :: "channel \<Rightarrow> channel list \<Rightarrow> bool" where
  "attached ch ls = (ch \<in> set ls)"

subsection \<open>\<open>runChatCompletion\<close>\<close>

definition update_cycle :: "nat \<Rightarrow> (cycle \<Rightarrow> cycle) \<Rightarrow> chat \<Rightarrow> chat" where
  "update_cycle i f s = s\<lparr>cycles := (cycles s)[i := f (cycles s ! i)]\<rparr>"

text \<open>
  \<open>cleanup\<close> detaches the four callbacks and clears the ref, whichever controller the ref
  holds at that moment.
\<close>

definition cleanup :: "nat \<Rightarrow> chat \<Rightarrow> chat" where
  "cleanup i s =
     (update_cycle i
        (\<lambda>c. c\<lparr>listeners :=
                  client_off OnFunction (client_off OnError (client_off OnEnd
                    (client_off OnContent (listeners c))))\<rparr>) s)
       \<lparr>abortControllerRef := None\<rparr>"

text \<open>A promise settles once: \<^verbatim>\<open>resolve\<close> and \<^verbatim>\<open>reject\<close> on a settled promise do nothing.\<close>

definition settle :: "settlement \<Rightarrow> cycle \<Rightarrow> cycle" where
  "settle r c = (case promise c of Pending \<Rightarrow> c\<lparr>promise := r\<rparr> | Resolved m \<Rightarrow> c | Rejected e \<Rightarrow> c)"

text \<open>
  The body of the promise's executor, which runs inside the call: it sets the flag,
  stores a new controller in the ref, publishes the history with an empty assistant
  message, attaches the callbacks and starts the request over the initial messages
  followed by the history. The result is the index of the new cycle and the new state.
\<close>

definition runChatCompletion ::
  "Message list \<Rightarrow> string \<Rightarrow> nat \<Rightarrow> Message list \<Rightarrow> chat \<Rightarrow> nat \<times> chat" where
  "runChatCompletion initialMessages new_id now msgs s =
     (let am = \<lparr>msg_id = new_id, createdAt = Some now, content = [], role = Assistant,
                function_call = None\<rparr>;
          c = \<lparr>history = msgs, assistantMessage = am,
               listeners = client_on OnFunction (client_on OnError (client_on OnEnd
                             (client_on OnContent []))),
               aborted = False, promise = Pending, request = initialMessages @ msgs\<rparr>
      in (length (cycles s),
          s\<lparr>isLoading := True, abortControllerRef := Some (length (cycles s)),
            messages := msgs @ [am], cycles := cycles s @ [c]\<rparr>))"

text \<open>The four callbacks, in the order of the source.\<close>

definition on_content :: "nat \<Rightarrow> string \<Rightarrow> chat \<Rightarrow> chat" where
  "on_content i text s =
     (let c = cycles s ! i;
          am = (assistantMessage c)\<lparr>content := content (assistantMessage c) @ text\<rparr>
      in (update_cycle i (\<lambda>c. c\<lparr>assistantMessage := am\<rparr>) s)
           \<lparr>messages := history c @ [am]\<rparr>)"

definition on_end :: "nat \<Rightarrow> chat \<Rightarrow> chat" where
  "on_end i s =
     (let am = assistantMessage (cycles s ! i)
      in update_cycle i (settle (Resolved am)) (cleanup i (s\<lparr>isLoading := False\<rparr>)))"

definition on_error :: "nat \<Rightarrow> exn \<Rightarrow> chat \<Rightarrow> chat" where
  "on_error i e s =
     update_cycle i (settle (Rejected e)) (cleanup i (s\<lparr>isLoading := False\<rparr>))"

text \<open>
  \<open>stringify\<close> is \<^verbatim>\<open>JSON.stringify\<close> on the call's arguments; its result is a string,
  or \<^verbatim>\<open>undefined\<close> (\<open>None\<close>) when the arguments are.
\<close>

definition on_function ::
  "('a \<Rightarrow> string option) \<Rightarrow> nat \<Rightarrow> string \<Rightarrow> 'a \<Rightarrow> chat \<Rightarrow> chat" where
  "on_function stringify i fname fargs s =
     (let c = cycles s ! i;
          am = (assistantMessage c)
                 \<lparr>function_call := Some \<lparr>fc_name = Some fname, arguments = stringify fargs\<rparr>\<rparr>;
          s1 = (update_cycle i (\<lambda>c. c\<lparr>assistantMessage := am\<rparr>) s)
                 \<lparr>messages := history c @ [am]\<rparr>
      in update_cycle i (settle (Resolved am)) (cleanup i (s1\<lparr>isLoading := False\<rparr>)))"

text \<open>The client of cycle \<open>i\<close> emits an event: the callback attached to its channel runs.\<close>

definition emit :: "('a \<Rightarrow> string option) \<Rightarrow> nat \<Rightarrow> chat \<Rightarrow> 'a client_event \<Rightarrow> chat" where
  "emit stringify i s ev =
     (if i < length (cycles s) \<and> attached (channel_of ev) (listeners (cycles s ! i)) then
        (case ev of
           ContentEvent text \<Rightarrow> on_content i text s
         | EndEvent \<Rightarrow> on_end i s
         | ErrorEvent e \<Rightarrow> on_error i e s
         | FunctionEvent fname fargs \<Rightarrow> on_function stringify i fname fargs s)
      else s)"

text \<open>
  \<^verbatim>\<open>abortController.abort()\<close>: a signal fires its \<^verbatim>\<open>abort\<close> event once. The listener
  clears the flag, cleans up and rejects with \<^verbatim>\<open>new DOMException("Aborted", "AbortError")\<close>.
\<close>

definition AbortError :: exn where
  "AbortError = DOMException ''Aborted'' ''AbortError''"

definition abort :: "nat \<Rightarrow> chat \<Rightarrow> chat" where
  "abort i s =
     (if i < length (cycles s) then
        (if aborted (cycles s ! i) then s
         else update_cycle i (settle (Rejected AbortError))
                (cleanup i ((update_cycle i (\<lambda>c. c\<lparr>aborted := True\<rparr>) s)\<lparr>isLoading := False\<rparr>)))
      else s)"

definition stop :: "chat \<Rightarrow> chat" where
  "stop s = (case abortControllerRef s of None \<Rightarrow> s | Some i \<Rightarrow> abort i s)"

subsection \<open>\<open>append\<close> and \<open>reload\<close>\<close>

text \<open>
  Both are helpers of a render \<open>r\<close>: the flag they test and the list they extend are the
  constants of that render, while the cycle they start changes the state as it is when
  they are called. Both return a promise. \<open>None\<close> is the promise of a call that returned
  at once; \<open>Some i\<close> is the promise of \<open>runChatCompletionAndHandleFunctionCall\<close>, which
  awaits cycle \<open>i\<close>.
\<close>

definition append_message ::
  "Message list \<Rightarrow> string \<Rightarrow> nat \<Rightarrow> render \<Rightarrow> Message \<Rightarrow> chat \<Rightarrow> nat option \<times> chat" where
  "append_message initialMessages new_id now r message s =
     (if rendered_isLoading r then (None, s)
      else
        (let newMessages = rendered_messages r @ [message];
             (i, s') = runChatCompletion initialMessages new_id now newMessages
                         (s\<lparr>messages := newMessages\<rparr>)
         in (Some i, s')))"

definition reload ::
  "Message list \<Rightarrow> string \<Rightarrow> nat \<Rightarrow> render \<Rightarrow> chat \<Rightarrow> nat option \<times> chat" where
  "reload initialMessages new_id now r s =
     (if rendered_isLoading r \<or> length (rendered_messages r) = 0 then (None, s)
      else
        (let lastMessage = rendered_messages r ! (length (rendered_messages r) - 1);
             newMessages = (if role lastMessage = Assistant
                            then take (length (rendered_messages r) - 1) (rendered_messages r)
                            else rendered_messages r);
             (i, s') = runChatCompletion initialMessages new_id now newMessages
                         (s\<lparr>messages := newMessages\<rparr>)
         in (Some i, s')))"

text \<open>
  How the promise of \<open>runChatCompletionAndHandleFunctionCall\<close> settles, given the cycle it
  awaits: it is pending or rejected as the cycle is; once the cycle resolves with a
  message that carries a function call, and a handler \<open>onFunctionCall\<close> was given, it
  goes on as that handler does on the cycle's history and the call.
\<close>

datatype 'i turn =
    TurnPending
  | TurnRejected exn
  | TurnResolved
  | TurnHandler "'i outcome"

definition runChatCompletionAndHandleFunctionCall ::
  "(Message list \<Rightarrow> FunctionCall \<Rightarrow> 'i outcome) option \<Rightarrow> cycle \<Rightarrow> 'i turn" where
  "runChatCompletionAndHandleFunctionCall onFunctionCall c =
     (case promise c of
        Pending \<Rightarrow> TurnPending
      | Rejected e \<Rightarrow> TurnRejected e
      | Resolved message \<Rightarrow>
          (case function_call message of
             None \<Rightarrow> TurnResolved
           | Some fc \<Rightarrow>
               (case onFunctionCall of
                  None \<Rightarrow> TurnResolved
                | Some handler \<Rightarrow> TurnHandler (handler (history c) fc))))"

section \<open>Notions used by the statements\<close>

text \<open>
  The entry point the handler finds under a name it filed: the loop overwrites, so it is
  the last entry point of the list that has the name.
\<close>

definition by_name ::
  "('m, 'i) AnnotatedFunction list \<Rightarrow> string \<Rightarrow> ('m, 'i) AnnotatedFunction option" where
  "by_name entryPoints = map_of (rev (map (\<lambda>e. (name e, e)) entryPoints))"

text \<open>
  Cycle \<open>i\<close> is the current one: it is the cycle whose controller the ref holds, the
  flag is set, its four callbacks are attached, and it has neither been aborted nor
  settled. This is the state \<open>runChatCompletion\<close> creates, and content events keep.
\<close>

definition in_flight :: "chat \<Rightarrow> nat \<Rightarrow> bool" where
  "in_flight s i =
     (i < length (cycles s) \<and> abortControllerRef s = Some i \<and> isLoading s
      \<and> listeners (cycles s ! i) = [OnFunction, OnError, OnEnd, OnContent]
      \<and> \<not> aborted (cycles s ! i) \<and> promise (cycles s ! i) = Pending)"

definition new_assistant :: "string \<Rightarrow> nat \<Rightarrow> Message" where
  "new_assistant new_id now =
     \<lparr>msg_id = new_id, createdAt = Some now, content = [], role = Assistant,
      function_call = None\<rparr>"

definition new_cycle :: "Message list \<Rightarrow> string \<Rightarrow> nat \<Rightarrow> Message list \<Rightarrow> cycle" where
  "new_cycle initialMessages new_id now msgs =
     \<lparr>history = msgs, assistantMessage = new_assistant new_id now,
      listeners = [OnFunction, OnError, OnEnd, OnContent],
      aborted = False, promise = Pending, request = initialMessages @ msgs\<rparr>"

text \<open>
  The runs in which React has rendered before every call: the hook starts idle, and every
  \<open>append\<close> and \<open>reload\<close> is the helper of a render of the state it is called in.
\<close>

inductive rerendered :: "('a \<Rightarrow> string option) \<Rightarrow> Message list \<Rightarrow> chat \<Rightarrow> bool"
  for sf :: "'a \<Rightarrow> string option" and init :: "Message list" where
  idle: "rerendered sf init initial_chat"
| appended:
    "rerendered sf init s \<Longrightarrow>
     rerendered sf init (snd (append_message init new_id now (render s) m s))"
| reloaded:
    "rerendered sf init s \<Longrightarrow> rerendered sf init (snd (reload init new_id now (render s) s))"
| stopped: "rerendered sf init s \<Longrightarrow> rerendered sf init (stop s)"
| emitted: "rerendered sf init s \<Longrightarrow> rerendered sf init (emit sf i s ev)"

text \<open>
  Single flight: every cycle is either detached from its client or the current one, and
  the flag and the ref are set only while there is a current cycle.
\<close>

definition single_flight :: "chat \<Rightarrow> bool" where
  "single_flight s =
     ((\<forall>j < length (cycles s). listeners (cycles s ! j) = [] \<or> in_flight s j)
      \<and> (isLoading s \<longrightarrow> (\<exists>i. in_flight s i))
      \<and> (\<forall>i. abortControllerRef s = Some i \<longrightarrow> in_flight s i))"

section \<open>Example values\<close>

text \<open>
  The entry point of the spec's examples, \<^verbatim>\<open>getWeather(city, units)\<close>, with \<open>city\<close>
  required; implementations are named by a string here.
\<close>

definition annotation :: "string \<Rightarrow> bool \<Rightarrow> (string \<times> json) list ArgumentAnnotation" where
  "annotation n r = \<lparr>arg_name = n, required = r, forwardedArgs = [(''type'', JStr ''string'')]\<rparr>"

definition getWeather :: "((string \<times> json) list, string) AnnotatedFunction" where
  "getWeather =
     \<lparr>name = ''getWeather'', description = ''Weather of a city'',
      argumentAnnotations = [annotation ''city'' True, annotation ''units'' False],
      implementation = ''getWeatherImpl''\<rparr>"

text \<open>Entry points whose arguments have names that other objects know too.\<close>

definition addVehicle :: "((string \<times> json) list, string) AnnotatedFunction" where
  "addVehicle =
     \<lparr>name = ''addVehicle'', description = ''Add a vehicle to the fleet'',
      argumentAnnotations = [annotation ''constructor'' False, annotation ''model'' True],
      implementation = ''addVehicleImpl''\<rparr>"

definition generatePassword :: "((string \<times> json) list, string) AnnotatedFunction" where
  "generatePassword =
     \<lparr>name = ''generatePassword'', description = ''A random password'',
      argumentAnnotations = [annotation ''length'' False],
      implementation = ''generatePasswordImpl''\<rparr>"

definition setPrototype :: "((string \<times> json) list, string) AnnotatedFunction" where
  "setPrototype =
     \<lparr>name = ''setPrototype'', description = ''Link an object to its prototype'',
      argumentAnnotations = [annotation ''target'' True, annotation ''__proto__'' True],
      implementation = ''setPrototypeImpl''\<rparr>"

text \<open>
  A parser for the texts of the examples: it returns what \<^verbatim>\<open>JSON.parse\<close> returns on
  them, and stands for it there only.
\<close>

definition example_parse :: "string \<Rightarrow> json option" where
  \<open>example_parse s =
     (if s = ''{"units":"celsius","city":"Paris"}''
        then Some (JObj [(''units'', JStr ''celsius''), (''city'', JStr ''Paris'')])
      else if s = ''{"model":"Clio"}'' then Some (JObj [(''model'', JStr ''Clio'')])
      else None)\<close>

text \<open>
  Two user messages, and the hook on its way through a first turn: \<open>hi\<close> was appended
  by the helper of the first render (\<open>asked\<close>), one frame has arrived (\<open>streaming\<close>),
  the stream has ended (\<open>answered\<close>).
\<close>

definition hi :: Message where
  "hi = \<lparr>msg_id = ''u1'', createdAt = None, content = ''hi'', role = User, function_call = None\<rparr>"

definition again :: Message where
  "again =
     \<lparr>msg_id = ''u2'', createdAt = None, content = ''again'', role = User, function_call = None\<rparr>"

definition asked :: chat where
  "asked = snd (append_message [] ''a1'' 7 (render initial_chat) hi initial_chat)"

definition streaming :: chat where
  "streaming = emit (\<lambda>a :: unit. None) 0 asked (ContentEvent ''He'')"

definition answered :: chat where
  "answered =
     foldl (emit (\<lambda>a :: unit. None) 0) asked [ContentEvent ''He'', ContentEvent ''llo'', EndEvent]"

text \<open>
  \<^verbatim>\<open>h.append(hi); h.append(again)\<close> with the helpers \<open>h\<close> of the first render: the state
  after both calls.
\<close>

definition asked_twice :: chat where
  "asked_twice = snd (append_message [] ''a2'' 8 (render initial_chat) again asked)"

text \<open>
  \<^verbatim>\<open>h.reload(); h.reload()\<close> with the helpers \<open>h\<close> of the render that shows the answer:
  the state after the first call and after both.
\<close>

definition reloaded_once :: chat where
  "reloaded_once = snd (reload [] ''a2'' 8 (render answered) answered)"

definition reloaded_twice :: chat where
  "reloaded_twice = snd (reload [] ''a3'' 9 (render answered) reloaded_once)"

section \<open>The registry: registration and removal\<close>





lemma distinct_own_property_order:
  "distinct (map fst kvs) \<Longrightarrow> distinct (map fst (own_property_order kvs))"
  by (auto simp: own_property_order_def distinct_map_filter distinct_map inj_on_def)





text \<open>
  The registry starts empty and changes by \<open>setEntryPoint\<close> and \<open>removeEntryPoint\<close> only,
  so no id occurs twice in it.
\<close>

lemma distinct_setEntryPoint:
  "distinct (map fst reg) \<Longrightarrow> distinct (map fst (setEntryPoint ident f reg))"
  by (simp add: setEntryPoint_def distinct_update distinct_own_property_order)

lemma distinct_removeEntryPoint:
  "distinct (map fst reg) \<Longrightarrow> distinct (map fst (removeEntryPoint ident reg))"
  by (simp add: removeEntryPoint_def distinct_delete distinct_own_property_order)








section \<open>Call dispatch: what the handler finds and passes\<close>

lemma own_assign:
  "own (assign obj k v) k' =
     (if k = ''__proto__'' then own obj k' else ((own obj)(k \<mapsto> v)) k')"
  by (simp add: assign_def)

lemma proto_assign:
  "proto (assign obj k v) = (if k = ''__proto__'' then Some v else proto obj)"
  by (simp add: assign_def)

lemma by_name_Cons:
  "by_name (e # eps) k =
     (case by_name eps k of Some e' \<Rightarrow> Some e' | None \<Rightarrow> if name e = k then Some e else None)"
  by (simp add: by_name_def map_add_def split: option.splits)

lemma by_name_None: "by_name eps n = None \<longleftrightarrow> n \<notin> name ` set eps"
  by (auto simp: by_name_def map_of_eq_None_iff image_iff)

text \<open>
  The table after the filing loop: its own properties are the entry points by name, the
  last of a name winning, except that an entry point named \<^verbatim>\<open>__proto__\<close> became the
  prototype.
\<close>

lemma filed_own:
  "own (foldl (\<lambda>obj e. assign obj (name e) e) obj0 eps) k =
     (if k = ''__proto__'' then own obj0 k
      else (case by_name eps k of Some e \<Rightarrow> Some e | None \<Rightarrow> own obj0 k))"
proof (induction eps arbitrary: obj0)
  case Nil
  show ?case by (simp add: by_name_def)
next
  case (Cons e eps)
  show ?case
    unfolding foldl_Cons Cons.IH by_name_Cons own_assign
    by (simp split: option.splits)
qed

lemma filed_proto:
  "proto (foldl (\<lambda>obj e. assign obj (name e) e) obj0 eps) =
     (case by_name eps ''__proto__'' of Some e \<Rightarrow> Some e | None \<Rightarrow> proto obj0)"
proof (induction eps arbitrary: obj0)
  case Nil
  show ?case by (simp add: by_name_def)
next
  case (Cons e eps)
  show ?case
    unfolding foldl_Cons Cons.IH by_name_Cons proto_assign
    by (simp split: option.splits)
qed

lemma read_filed:
  assumes "by_name eps n = Some e"
  shows "read_entry (foldl (\<lambda>obj e. assign obj (name e) e) empty_object eps) n = EntryPoint e"
proof (cases "n = ''__proto__''")
  case True
  with assms show ?thesis
    by (simp add: read_entry_def filed_own filed_proto empty_object_def)
next
  case False
  with assms show ?thesis
    by (simp add: read_entry_def filed_own filed_proto empty_object_def)
qed

lemma read_unfiled:
  assumes "by_name eps n = None" and "by_name eps ''__proto__'' = None"
  shows "read_entry (foldl (\<lambda>obj e. assign obj (name e) e) empty_object eps) n
         = (if n \<in> set Object_prototype_names then Inherited True else NoValue)"
  using assms
  by (simp add: read_entry_def filed_own filed_proto empty_object_def split: option.splits)

text \<open>The arguments read from a parsed object, and from the array the handler starts with.\<close>

lemma params_object:
  "paramsInCorrectOrder (JObj kvs) anns =
     Inr (map (\<lambda>arg. case map_of kvs (arg_name arg) of
                          Some x \<Rightarrow> Json x
                        | None \<Rightarrow> inherited Object_chain (arg_name arg)) anns)"
  by (induction anns) (simp_all add: get_property_def split: option.splits)

lemma params_empty_array:
  "paramsInCorrectOrder (JArr []) anns =
     Inr (map (\<lambda>arg. if arg_name arg = ''length'' then Json (JNum 0)
                      else inherited Array_chain (arg_name arg)) anns)"
  by (induction anns) (simp_all add: get_property_def split: option.splits)

lemma inherited_Object_plain:
  "k \<notin> set Object_prototype_names \<Longrightarrow> inherited Object_chain k = Undefined"
  by (auto simp: inherited_def Object_chain_def Object_prototype_names_def)

lemma inherited_Array_plain:
  "k \<notin> set Array_prototype_names \<Longrightarrow> k \<notin> set Object_prototype_names \<Longrightarrow>
   inherited Array_chain k = Undefined"
  by (auto simp: inherited_def Array_chain_def Object_chain_def Object_prototype_names_def)

text \<open>
  A call of a registered name with arguments that parse to an object invokes the entry
  point of that name, and the positional arguments follow its annotations in their
  order, each read from the object by the annotation's name.
\<close>

lemma handler_registered:
  assumes "by_name eps n = Some e"
    and "functionCallArguments parse \<lparr>fc_name = Some n, arguments = a\<rparr> = Some (JObj kvs)"
  shows "entryPointsToFunctionCallHandler parse eps \<lparr>fc_name = Some n, arguments = a\<rparr> =
          Invokes (implementation e)
            (map (\<lambda>arg. case map_of kvs (arg_name arg) of
                          Some x \<Rightarrow> Json x
                        | None \<Rightarrow> inherited Object_chain (arg_name arg))
               (argumentAnnotations e))"
  using assms
  by (simp add: entryPointsToFunctionCallHandler_def read_filed params_object)

text \<open>
  When no annotation has a name that \<^verbatim>\<open>Object.prototype\<close> has, an argument is the
  value the object has under the annotation's name, and \<^verbatim>\<open>undefined\<close> when it has
  none.
\<close>

lemma handler_registered_plain:
  assumes "by_name eps n = Some e"
    and "functionCallArguments parse \<lparr>fc_name = Some n, arguments = a\<rparr> = Some (JObj kvs)"
    and "\<forall>arg \<in> set (argumentAnnotations e). arg_name arg \<notin> set Object_prototype_names"
  shows "entryPointsToFunctionCallHandler parse eps \<lparr>fc_name = Some n, arguments = a\<rparr> =
          Invokes (implementation e)
            (map (\<lambda>arg. case map_of kvs (arg_name arg) of
                          Some x \<Rightarrow> Json x
                        | None \<Rightarrow> Undefined)
               (argumentAnnotations e))"
proof -
  have "map (\<lambda>arg. case map_of kvs (arg_name arg) of
                      Some x \<Rightarrow> Json x
                    | None \<Rightarrow> inherited Object_chain (arg_name arg)) (argumentAnnotations e)
        = map (\<lambda>arg. case map_of kvs (arg_name arg) of
                      Some x \<Rightarrow> Json x
                    | None \<Rightarrow> Undefined) (argumentAnnotations e)"
    using assms(3) by (auto simp: inherited_Object_plain split: option.splits)
  then show ?thesis
    using handler_registered [OF assms(1,2)] by simp
qed

text \<open>
  The spec's example: \<open>getWeather\<close> called with \<open>units\<close> before \<open>city\<close> in the payload
  receives \<open>city\<close> first.
\<close>

lemma getWeather_in_registration_order:
  assumes \<open>parse ''{"units":"celsius","city":"Paris"}''
            = Some (JObj [(''units'', JStr ''celsius''), (''city'', JStr ''Paris'')])\<close>
  shows \<open>entryPointsToFunctionCallHandler parse [getWeather]
            \<lparr>fc_name = Some ''getWeather'',
             arguments = Some ''{"units":"celsius","city":"Paris"}''\<rparr>
          = Invokes ''getWeatherImpl'' [Json (JStr ''Paris''), Json (JStr ''celsius'')]\<close>
proof -
  have "by_name [getWeather] ''getWeather'' = Some getWeather"
    by (simp add: by_name_def getWeather_def)
  then show ?thesis
    using assms
    by (simp add: handler_registered functionCallArguments_def)
       (simp add: getWeather_def annotation_def)
qed

text \<open>
  Claim C2. The claim has every name that is absent from the parsed mapping passed as
  \<^verbatim>\<open>undefined\<close>. The handler reads the parsed object with \<^verbatim>\<open>functionCallArguments[arg.name]\<close>,
  which also finds what the object inherits: for \<open>addVehicle(constructor, model)\<close> called
  with \<^verbatim>\<open>{"model":"Clio"}\<close>, the implementation receives the function
  \<^verbatim>\<open>Object.prototype.constructor\<close> in the place of the absent \<open>constructor\<close>.
\<close>

theorem absent_argument_reads_prototype:
  assumes \<open>parse ''{"model":"Clio"}'' = Some (JObj [(''model'', JStr ''Clio'')])\<close>
  shows \<open>entryPointsToFunctionCallHandler parse [addVehicle]
            \<lparr>fc_name = Some ''addVehicle'', arguments = Some ''{"model":"Clio"}''\<rparr>
          = Invokes ''addVehicleImpl''
              [Builtin ''Object.prototype.constructor'', Json (JStr ''Clio'')]\<close>
proof -
  have "by_name [addVehicle] ''addVehicle'' = Some addVehicle"
    by (simp add: by_name_def addVehicle_def)
  then show ?thesis
    using assms
    by (simp add: handler_registered functionCallArguments_def)
       (simp add: addVehicle_def annotation_def inherited_def Object_chain_def
          Object_prototype_names_def)
qed

theorem absent_argument_reads_prototype_witness:
  \<open>example_parse ''{"model":"Clio"}'' = Some (JObj [(''model'', JStr ''Clio'')])
   \<and> entryPointsToFunctionCallHandler example_parse [addVehicle]
        \<lparr>fc_name = Some ''addVehicle'', arguments = Some ''{"model":"Clio"}''\<rparr>
      = Invokes ''addVehicleImpl''
          [Builtin ''Object.prototype.constructor'', Json (JStr ''Clio'')]\<close>
proof -
  have p: \<open>example_parse ''{"model":"Clio"}'' = Some (JObj [(''model'', JStr ''Clio'')])\<close>
    by (simp add: example_parse_def)
  show ?thesis
    using p absent_argument_reads_prototype [of example_parse] by simp
qed

text \<open>
  A called name that no entry point has, that \<^verbatim>\<open>Object.prototype\<close> does not have
  either, with no entry point named \<^verbatim>\<open>__proto__\<close>: the handler does nothing, whatever the
  arguments are and whatever the parser would make of them.
\<close>

lemma handler_unregistered:
  assumes "n \<notin> name ` set eps" and "''__proto__'' \<notin> name ` set eps"
    and "n \<notin> set Object_prototype_names"
  shows "entryPointsToFunctionCallHandler parse eps \<lparr>fc_name = Some n, arguments = a\<rparr> = Nothing"
  using assms
  by (simp add: entryPointsToFunctionCallHandler_def read_unfiled by_name_None)

text \<open>
  A called name that no entry point has but \<^verbatim>\<open>Object.prototype\<close> has: the handler
  takes what it inherits for an entry point, parses the arguments if there are any, and
  throws.
\<close>

lemma handler_inherited:
  assumes "by_name eps n = None" and "by_name eps ''__proto__'' = None"
    and "n \<in> set Object_prototype_names"
  shows "entryPointsToFunctionCallHandler parse eps \<lparr>fc_name = Some n, arguments = a\<rparr> =
          (case functionCallArguments parse \<lparr>fc_name = Some n, arguments = a\<rparr> of
             None \<Rightarrow> Throws SyntaxError
           | Some args \<Rightarrow> Throws TypeError)"
  using assms
  by (simp add: entryPointsToFunctionCallHandler_def read_unfiled)

text \<open>
  Claim C8. The claim has every call of an unregistered name complete without an error.
  The table the handler reads is a plain object, and a read of \<open>toString\<close> finds the
  function it inherits: with \<open>getWeather\<close> alone registered, a call of \<open>toString\<close>
  passes the test \<^verbatim>\<open>if (entryPointFunction)\<close> and throws a TypeError at the loop over
  the \<^verbatim>\<open>argumentAnnotations\<close> it does not have; with arguments it throws that, or the
  SyntaxError of the parser.
\<close>

theorem unregistered_toString_throws:
  "entryPointsToFunctionCallHandler parse [getWeather]
     \<lparr>fc_name = Some ''toString'', arguments = None\<rparr> = Throws TypeError
   \<and> (entryPointsToFunctionCallHandler parse [getWeather]
         \<lparr>fc_name = Some ''toString'', arguments = a\<rparr> = Throws TypeError
       \<or> entryPointsToFunctionCallHandler parse [getWeather]
         \<lparr>fc_name = Some ''toString'', arguments = a\<rparr> = Throws SyntaxError)"
proof -
  have n: "by_name [getWeather] ''toString'' = None" "by_name [getWeather] ''__proto__'' = None"
    and m: "''toString'' \<in> set Object_prototype_names"
    by (simp_all add: by_name_def getWeather_def Object_prototype_names_def)
  have "entryPointsToFunctionCallHandler parse [getWeather]
          \<lparr>fc_name = Some ''toString'', arguments = None\<rparr> = Throws TypeError"
    using handler_inherited [OF n m, of parse None]
    by (simp add: functionCallArguments_def)
  moreover have "entryPointsToFunctionCallHandler parse [getWeather]
         \<lparr>fc_name = Some ''toString'', arguments = a\<rparr> = Throws TypeError
       \<or> entryPointsToFunctionCallHandler parse [getWeather]
         \<lparr>fc_name = Some ''toString'', arguments = a\<rparr> = Throws SyntaxError"
    using handler_inherited [OF n m, of parse a]
    by (simp split: option.splits)
  ultimately show ?thesis by simp
qed

text \<open>
  A call of a registered name without arguments (the string is absent or empty) parses
  nothing and invokes the entry point with one argument for each annotation, each read
  from the empty array the handler starts with.
\<close>

lemma handler_without_arguments:
  assumes "by_name eps n = Some e" and "a = None \<or> a = Some []"
  shows "entryPointsToFunctionCallHandler parse eps \<lparr>fc_name = Some n, arguments = a\<rparr> =
          Invokes (implementation e)
            (map (\<lambda>arg. if arg_name arg = ''length'' then Json (JNum 0)
                         else inherited Array_chain (arg_name arg))
               (argumentAnnotations e))"
proof -
  have "functionCallArguments parse \<lparr>fc_name = Some n, arguments = a\<rparr> = Some (JArr [])"
    using assms(2) by (auto simp: functionCallArguments_def)
  then show ?thesis
    using assms(1)
    by (simp add: entryPointsToFunctionCallHandler_def read_filed params_empty_array)
qed

text \<open>
  When no annotation is named \<open>length\<close> or has a name that arrays inherit, every
  argument of such a call is \<^verbatim>\<open>undefined\<close>.
\<close>

lemma handler_without_arguments_plain:
  assumes "by_name eps n = Some e" and "a = None \<or> a = Some []"
    and "\<forall>arg \<in> set (argumentAnnotations e).
           arg_name arg \<noteq> ''length'' \<and> arg_name arg \<notin> set Array_prototype_names
           \<and> arg_name arg \<notin> set Object_prototype_names"
  shows "entryPointsToFunctionCallHandler parse eps \<lparr>fc_name = Some n, arguments = a\<rparr> =
          Invokes (implementation e) (replicate (length (argumentAnnotations e)) Undefined)"
proof -
  have "map (\<lambda>arg. if arg_name arg = ''length'' then Json (JNum 0)
                    else inherited Array_chain (arg_name arg)) (argumentAnnotations e)
        = map (\<lambda>arg. Undefined) (argumentAnnotations e)"
    using assms(3) by (auto simp: inherited_Array_plain)
  then show ?thesis
    using handler_without_arguments [OF assms(1,2), of parse] by (simp add: map_replicate_const)
qed

text \<open>
  Claim C10. The claim has every annotated argument \<^verbatim>\<open>undefined\<close> when the call carries
  no arguments. The handler reads the names from the array literal \<^verbatim>\<open>[]\<close> it starts
  with, and an array has a \<open>length\<close>: \<open>generatePassword(length)\<close> called without
  arguments is invoked with the number 0.
\<close>

theorem absent_arguments_length_is_zero:
  "entryPointsToFunctionCallHandler parse [generatePassword]
     \<lparr>fc_name = Some ''generatePassword'', arguments = None\<rparr>
   = Invokes ''generatePasswordImpl'' [Json (JNum 0)]
   \<and> entryPointsToFunctionCallHandler parse [generatePassword]
     \<lparr>fc_name = Some ''generatePassword'', arguments = Some []\<rparr>
   = Invokes ''generatePasswordImpl'' [Json (JNum 0)]"
proof -
  have "by_name [generatePassword] ''generatePassword'' = Some generatePassword"
    by (simp add: by_name_def generatePassword_def)
  then show ?thesis
    by (simp add: handler_without_arguments) (simp add: generatePassword_def annotation_def)
qed

section \<open>Schema compilation: what the schema carries\<close>

lemma last_annotation_Cons:
  "map_of (rev (map (\<lambda>a. (arg_name a, forwardedArgs a)) (a # anns))) k =
     (case map_of (rev (map (\<lambda>a. (arg_name a, forwardedArgs a)) anns)) k of
        Some m \<Rightarrow> Some m
      | None \<Rightarrow> if arg_name a = k then Some (forwardedArgs a) else None)"
  by (simp add: map_add_def split: option.splits)

lemma assigned_own:
  "own (foldl (\<lambda>ps arg. assign ps (arg_name arg) (forwardedArgs arg)) obj0 anns) k =
     (if k = ''__proto__'' then own obj0 k
      else (case map_of (rev (map (\<lambda>a. (arg_name a, forwardedArgs a)) anns)) k of
              Some m \<Rightarrow> Some m
            | None \<Rightarrow> own obj0 k))"
proof (induction anns arbitrary: obj0)
  case Nil
  show ?case by simp
next
  case (Cons a anns)
  show ?case
    unfolding foldl_Cons Cons.IH last_annotation_Cons own_assign
    by (simp split: option.splits)
qed

text \<open>
  The schema of an entry point: its name, its description, the names of the required
  annotations in their order, and one property for every annotation name other than
  \<^verbatim>\<open>__proto__\<close>, holding the metadata of the last annotation of that name.
\<close>

lemma compiled_schema:
  "function_name (annotatedFunctionToChatCompletionFunction af) = name af"
  "function_description (annotatedFunctionToChatCompletionFunction af) = description af"
  "parameters_type (parameters (annotatedFunctionToChatCompletionFunction af)) = ''object''"
  "parameters_required (parameters (annotatedFunctionToChatCompletionFunction af))
     = map arg_name (filter required (argumentAnnotations af))"
  "k \<noteq> ''__proto__'' \<Longrightarrow>
     own (properties (parameters (annotatedFunctionToChatCompletionFunction af))) k
     = map_of (rev (map (\<lambda>a. (arg_name a, forwardedArgs a)) (argumentAnnotations af))) k"
  by (simp_all add: annotatedFunctionToChatCompletionFunction_def assigned_own empty_object_def
      split: option.splits)

lemma compiled_properties_dom:
  "dom (own (properties (parameters (annotatedFunctionToChatCompletionFunction af))))
     = arg_name ` set (argumentAnnotations af) - {''__proto__''}"
proof -
  have "dom (map_of (rev (map (\<lambda>a. (arg_name a, forwardedArgs a)) (argumentAnnotations af))))
          = arg_name ` set (argumentAnnotations af)"
    by (simp add: dom_map_of_conv_image_fst image_image)
  then show ?thesis
    by (auto simp: annotatedFunctionToChatCompletionFunction_def assigned_own empty_object_def
        dom_def split: option.splits if_splits)
qed

text \<open>The spec's example: \<open>city\<close> alone is required, \<open>city\<close> and \<open>units\<close> are properties.\<close>

lemma getWeather_schema:
  "parameters_required (parameters (annotatedFunctionToChatCompletionFunction getWeather))
     = [''city'']"
  "dom (own (properties (parameters (annotatedFunctionToChatCompletionFunction getWeather))))
     = {''city'', ''units''}"
  by (auto simp: compiled_schema compiled_properties_dom getWeather_def annotation_def)

text \<open>
  Claim C3. The claim has one property for every annotation. The assignment
  \<^verbatim>\<open>parameters[arg.name] = forwardedArgs\<close> creates none for an annotation named
  \<^verbatim>\<open>__proto__\<close>: it makes the metadata the prototype of \<^verbatim>\<open>parameters\<close>. For
  \<open>setPrototype(target, __proto__)\<close> the required list names \<open>target\<close> and
  \<^verbatim>\<open>__proto__\<close>, and \<open>target\<close> is the only property.
\<close>

theorem proto_annotation_is_no_property:
  "parameters_required (parameters (annotatedFunctionToChatCompletionFunction setPrototype))
     = [''target'', ''__proto__'']
   \<and> own (properties (parameters (annotatedFunctionToChatCompletionFunction setPrototype)))
        ''__proto__'' = None
   \<and> dom (own (properties (parameters (annotatedFunctionToChatCompletionFunction setPrototype))))
        = {''target''}
   \<and> proto (properties (parameters (annotatedFunctionToChatCompletionFunction setPrototype)))
        = Some [(''type'', JStr ''string'')]"
proof -
  have "proto (properties (parameters (annotatedFunctionToChatCompletionFunction setPrototype)))
        = Some [(''type'', JStr ''string'')]"
    and "own (properties (parameters (annotatedFunctionToChatCompletionFunction setPrototype)))
        ''__proto__'' = None"
    by (simp_all add: annotatedFunctionToChatCompletionFunction_def setPrototype_def
        annotation_def assign_def empty_object_def)
  moreover have "dom (own (properties (parameters
        (annotatedFunctionToChatCompletionFunction setPrototype)))) = {''target''}"
    by (auto simp: compiled_properties_dom setPrototype_def annotation_def)
  moreover have "parameters_required (parameters
        (annotatedFunctionToChatCompletionFunction setPrototype)) = [''target'', ''__proto__'']"
    by (simp add: compiled_schema setPrototype_def annotation_def)
  ultimately show ?thesis by simp
qed

section \<open>The chat hook: cycles\<close>

lemma off_all:
  "client_off OnFunction (client_off OnError (client_off OnEnd (client_off OnContent ls))) = []"
proof (induction ls)
  case Nil
  show ?case by (simp add: client_off_def)
next
  case (Cons ch ls)
  then show ?case by (cases ch) (simp_all add: client_off_def)
qed

lemma cycles_cleanup:
  "i < length (cycles s) \<Longrightarrow>
   cycles (cleanup i s) = (cycles s)[i := (cycles s ! i)\<lparr>listeners := []\<rparr>]"
  by (simp add: cleanup_def update_cycle_def off_all)

text \<open>A client whose callbacks are detached changes nothing, whatever it emits.\<close>

lemma emit_detached:
  "i < length (cycles s) \<Longrightarrow> listeners (cycles s ! i) = [] \<Longrightarrow> emit sf i s ev = s"
  by (simp add: emit_def attached_def)

lemma emits_detached:
  "i < length (cycles s) \<Longrightarrow> listeners (cycles s ! i) = [] \<Longrightarrow> foldl (emit sf i) s evs = s"
  by (induction evs) (simp_all add: emit_detached)

lemma emit_content:
  assumes "i < length (cycles s)" and "attached OnContent (listeners (cycles s ! i))"
  shows "emit sf i s (ContentEvent t) = on_content i t s"
  using assms by (simp add: emit_def)

lemma on_content_fields:
  assumes "i < length (cycles s)"
  shows "cycles (on_content i t s) ! i =
           (cycles s ! i)\<lparr>assistantMessage := (assistantMessage (cycles s ! i))
              \<lparr>content := content (assistantMessage (cycles s ! i)) @ t\<rparr>\<rparr>"
    and "length (cycles (on_content i t s)) = length (cycles s)"
    and "isLoading (on_content i t s) = isLoading s"
    and "abortControllerRef (on_content i t s) = abortControllerRef s"
  using assms by (simp_all add: on_content_def update_cycle_def Let_def)

text \<open>
  A run of content events on a cycle whose content callback is attached: the assistant
  message of the cycle has grown by the frames in their order, and the published list is
  the cycle's history followed by a copy of it.
\<close>

lemma emit_contents:
  assumes "i < length (cycles s)" and "attached OnContent (listeners (cycles s ! i))"
  shows "foldl (emit sf i) s (map ContentEvent fs) =
          (if fs = [] then s
           else s\<lparr>messages := history (cycles s ! i) @
                     [(assistantMessage (cycles s ! i))
                        \<lparr>content := content (assistantMessage (cycles s ! i)) @ concat fs\<rparr>],
                  cycles := (cycles s)[i := (cycles s ! i)
                     \<lparr>assistantMessage := (assistantMessage (cycles s ! i))
                        \<lparr>content := content (assistantMessage (cycles s ! i)) @ concat fs\<rparr>\<rparr>]\<rparr>)"
  using assms
proof (induction fs arbitrary: s)
  case Nil
  show ?case by simp
next
  case (Cons f fs)
  let ?s1 = "on_content i f s"
  have step: "emit sf i s (ContentEvent f) = ?s1"
    using Cons.prems by (simp add: emit_content)
  have len: "i < length (cycles ?s1)"
    using Cons.prems by (simp add: on_content_fields)
  have att: "attached OnContent (listeners (cycles ?s1 ! i))"
    using Cons.prems by (simp add: on_content_fields)
  show ?case
  proof (cases "fs = []")
    case True
    then show ?thesis using Cons.prems step
      by (simp add: on_content_def update_cycle_def Let_def)
  next
    case False
    then show ?thesis
      using Cons.IH [OF len att] Cons.prems step
      by (simp add: on_content_def update_cycle_def Let_def)
  qed
qed

text \<open>What \<open>runChatCompletion\<close> leaves: a new cycle, last in the list and in flight.\<close>

lemma runChatCompletion_state:
  "runChatCompletion init new_id now msgs s =
     (length (cycles s),
      s\<lparr>isLoading := True, abortControllerRef := Some (length (cycles s)),
        messages := msgs @ [new_assistant new_id now],
        cycles := cycles s @ [new_cycle init new_id now msgs]\<rparr>)"
  by (simp add: runChatCompletion_def new_cycle_def new_assistant_def client_on_def Let_def)

lemma runChatCompletion_in_flight:
  "in_flight (snd (runChatCompletion init new_id now msgs s)) (length (cycles s))"
  by (simp add: runChatCompletion_state in_flight_def new_cycle_def)

lemma content_keeps_in_flight:
  assumes "in_flight s i"
  shows "in_flight (emit sf i s (ContentEvent t)) i"
  using assms
  by (simp add: in_flight_def emit_def attached_def on_content_def update_cycle_def Let_def)

text \<open>What the helpers of a render do when its flag is clear.\<close>

lemma append_message_state:
  assumes "\<not> rendered_isLoading r"
  shows "append_message init new_id now r m s =
     (Some (length (cycles s)),
      s\<lparr>isLoading := True, abortControllerRef := Some (length (cycles s)),
        messages := rendered_messages r @ [m, new_assistant new_id now],
        cycles := cycles s @ [new_cycle init new_id now (rendered_messages r @ [m])]\<rparr>)"
  using assms by (simp add: append_message_def runChatCompletion_state)

text \<open>
  Claim C1. Through the helper of a render whose flag is clear, appending a message and
  then receiving any finite sequence of content frames followed by the end of the stream
  leaves the messages of that render, the appended message and one assistant message
  whose content is the concatenation of the frames in their order of arrival; the flag
  is cleared and the cycle's promise is resolved with that message.
\<close>

theorem content_frames_concatenate:
  assumes "\<not> rendered_isLoading r"
  shows "(let (p, s1) = append_message init new_id now r m s;
              i = length (cycles s);
              s2 = foldl (emit sf i) s1 (map ContentEvent frames @ [EndEvent]);
              am = \<lparr>msg_id = new_id, createdAt = Some now, content = concat frames,
                     role = Assistant, function_call = None\<rparr>
          in p = Some i \<and> messages s2 = rendered_messages r @ [m, am] \<and> \<not> isLoading s2
             \<and> promise (cycles s2 ! i) = Resolved am)"
proof -
  define am0 where "am0 = new_assistant new_id now"
  define s1 where "s1 = snd (append_message init new_id now r m s)"
  define i where "i = length (cycles s)"
  have ap: "append_message init new_id now r m s = (Some i, s1)"
    using assms by (simp add: s1_def i_def append_message_state)
  have c1: "cycles s1 = cycles s @ [new_cycle init new_id now (rendered_messages r @ [m])]"
    using assms by (simp add: s1_def append_message_state)
  have m1: "messages s1 = rendered_messages r @ [m, am0]"
    using assms by (simp add: s1_def am0_def append_message_state)
  have len: "i < length (cycles s1)" by (simp add: c1 i_def)
  have ci: "cycles s1 ! i = new_cycle init new_id now (rendered_messages r @ [m])"
    by (simp add: c1 i_def)
  have att: "attached OnContent (listeners (cycles s1 ! i))"
    by (simp add: ci attached_def new_cycle_def)
  define s1' where "s1' = foldl (emit sf i) s1 (map ContentEvent frames)"
  define am where "am = am0\<lparr>content := concat frames\<rparr>"
  have cs: "cycles s1' ! i = (cycles s1 ! i)\<lparr>assistantMessage := am\<rparr>"
    and ls: "length (cycles s1') = length (cycles s1)"
    and ms: "messages s1' = rendered_messages r @ [m, am]"
    unfolding s1'_def using emit_contents [OF len att, of sf frames] len
    by (auto simp: ci m1 am_def am0_def new_cycle_def new_assistant_def)
  have len': "i < length (cycles s1')" using len ls by simp
  have "emit sf i s1' EndEvent = on_end i s1'"
    using len' by (simp add: emit_def cs ci attached_def new_cycle_def)
  then have fin: "foldl (emit sf i) s1 (map ContentEvent frames @ [EndEvent]) = on_end i s1'"
    by (simp add: s1'_def)
  have "messages (on_end i s1') = rendered_messages r @ [m, am]"
    and "\<not> isLoading (on_end i s1')"
    and "promise (cycles (on_end i s1') ! i) = Resolved am"
    using len'
    by (simp_all add: on_end_def cleanup_def update_cycle_def Let_def ms cs ci settle_def
        new_cycle_def)
  then show ?thesis
    using ap fin by (simp add: i_def Let_def am_def am0_def new_assistant_def)
qed

text \<open>
  The spec's scenario: \<open>hi\<close> is appended to the empty conversation, the frames \<open>He\<close> and
  \<open>llo\<close> arrive and the stream ends; the messages are \<open>hi\<close> and an assistant message
  \<open>Hello\<close>, and the flag is cleared.
\<close>

theorem content_frames_concatenate_witness:
  "\<not> rendered_isLoading (render initial_chat)
   \<and> messages answered
       = [hi, \<lparr>msg_id = ''a1'', createdAt = Some 7, content = ''Hello'', role = Assistant,
               function_call = None\<rparr>]
   \<and> \<not> isLoading answered"
  using content_frames_concatenate
    [of "render initial_chat" "[]" "''a1''" 7 hi initial_chat "\<lambda>a :: unit. None"
       "[''He'', ''llo'']"]
  by (simp add: answered_def asked_def render_def initial_chat_def split_beta Let_def)

section \<open>The chat hook: the states of the examples\<close>

lemma asked_state:
  "asked =
     \<lparr>messages = [hi, new_assistant ''a1'' 7], isLoading = True, abortControllerRef = Some 0,
      cycles = [new_cycle [] ''a1'' 7 [hi]]\<rparr>"
  by (simp add: asked_def append_message_state render_def initial_chat_def)

lemma streaming_state:
  "streaming =
     \<lparr>messages = [hi, (new_assistant ''a1'' 7)\<lparr>content := ''He''\<rparr>], isLoading = True,
      abortControllerRef = Some 0,
      cycles = [(new_cycle [] ''a1'' 7 [hi])
                  \<lparr>assistantMessage := (new_assistant ''a1'' 7)\<lparr>content := ''He''\<rparr>\<rparr>]\<rparr>"
  by (simp add: streaming_def asked_state emit_def attached_def new_cycle_def new_assistant_def
      on_content_def update_cycle_def Let_def)

lemma streaming_in_flight: "in_flight streaming 0"
  by (simp add: streaming_state in_flight_def new_cycle_def)

lemma answered_state:
  "answered =
     \<lparr>messages = [hi, (new_assistant ''a1'' 7)\<lparr>content := ''Hello''\<rparr>], isLoading = False,
      abortControllerRef = None,
      cycles = [(new_cycle [] ''a1'' 7 [hi])
                  \<lparr>assistantMessage := (new_assistant ''a1'' 7)\<lparr>content := ''Hello''\<rparr>,
                   listeners := [],
                   promise := Resolved ((new_assistant ''a1'' 7)\<lparr>content := ''Hello''\<rparr>)\<rparr>]\<rparr>"
  by (simp add: answered_def asked_state emit_def attached_def new_cycle_def new_assistant_def
      on_content_def on_end_def cleanup_def client_off_def settle_def update_cycle_def Let_def)

lemma asked_twice_state:
  "asked_twice =
     \<lparr>messages = [again, new_assistant ''a2'' 8], isLoading = True, abortControllerRef = Some 1,
      cycles = [new_cycle [] ''a1'' 7 [hi], new_cycle [] ''a2'' 8 [again]]\<rparr>"
  by (simp add: asked_twice_def append_message_state render_def initial_chat_def asked_state)

lemma reloaded_once_state:
  "reloaded_once = answered
     \<lparr>isLoading := True, abortControllerRef := Some 1,
      messages := [hi, new_assistant ''a2'' 8],
      cycles := cycles answered @ [new_cycle [] ''a2'' 8 [hi]]\<rparr>"
  by (simp add: reloaded_once_def reload_def render_def answered_state runChatCompletion_state
      new_assistant_def Let_def)

lemma reloaded_twice_state:
  "reloaded_twice = answered
     \<lparr>isLoading := True, abortControllerRef := Some 2,
      messages := [hi, new_assistant ''a3'' 9],
      cycles := cycles answered @ [new_cycle [] ''a2'' 8 [hi], new_cycle [] ''a3'' 9 [hi]]\<rparr>"
  by (simp add: reloaded_twice_def reloaded_once_state reload_def render_def answered_state
      runChatCompletion_state new_assistant_def Let_def)

section \<open>The chat hook: append while a cycle is in flight\<close>

text \<open>
  The helper of a render that saw the flag set returns at once: the state is what it
  was, and the promise awaits no cycle.
\<close>

lemma append_of_a_loading_render:
  assumes "rendered_isLoading r"
  shows "append_message init new_id now r m s = (None, s)"
  using assms by (simp add: append_message_def)

text \<open>
  Claim C4. The claim has \<open>append\<close> do nothing whenever a cycle is in flight. The flag
  \<open>append\<close> tests is the constant of its render, which the first call cannot change:
  after \<^verbatim>\<open>h.append(hi)\<close> the first cycle is in flight and the flag cell is set, and
  \<^verbatim>\<open>h.append(again)\<close> through the same render's helper starts a second cycle, replaces
  the published list (\<open>hi\<close> is gone from it) and the ref, and leaves the first cycle
  attached and pending.
\<close>

theorem second_append_of_a_render_starts_a_cycle:
  "in_flight asked 0
   \<and> append_message [] ''a2'' 8 (render initial_chat) again asked = (Some 1, asked_twice)
   \<and> messages asked = [hi, new_assistant ''a1'' 7]
   \<and> messages asked_twice = [again, new_assistant ''a2'' 8]
   \<and> abortControllerRef asked_twice = Some 1
   \<and> length (cycles asked_twice) = 2
   \<and> listeners (cycles asked_twice ! 0) = [OnFunction, OnError, OnEnd, OnContent]
   \<and> promise (cycles asked_twice ! 0) = Pending
   \<and> listeners (cycles asked_twice ! 1) = [OnFunction, OnError, OnEnd, OnContent]
   \<and> promise (cycles asked_twice ! 1) = Pending"
proof -
  have "in_flight asked 0"
    by (simp add: asked_state in_flight_def new_cycle_def)
  moreover have "append_message [] ''a2'' 8 (render initial_chat) again asked
      = (Some 1, asked_twice)"
    by (simp add: asked_twice_def append_message_state render_def initial_chat_def asked_state)
  ultimately show ?thesis
    by (simp add: asked_twice_state asked_state new_cycle_def)
qed

section \<open>The chat hook: function calls\<close>

text \<open>
  Claim C5. A function-call event on a cycle whose function callback is attached and
  whose promise is pending stores the received name and the serialised arguments in the
  cycle's assistant message, publishes the history followed by that message, clears the
  flag and the ref and resolves the cycle's promise with the message, all within the
  event and with no end event; whatever the client emits afterwards changes nothing.
\<close>

theorem function_call_ends_cycle:
  assumes "i < length (cycles s)" and "attached OnFunction (listeners (cycles s ! i))"
    and "promise (cycles s ! i) = Pending"
  shows "(let s' = emit sf i s (FunctionEvent fname fargs);
              am = (assistantMessage (cycles s ! i))
                     \<lparr>function_call := Some \<lparr>fc_name = Some fname, arguments = sf fargs\<rparr>\<rparr>
          in assistantMessage (cycles s' ! i) = am
             \<and> messages s' = history (cycles s ! i) @ [am]
             \<and> promise (cycles s' ! i) = Resolved am
             \<and> \<not> isLoading s'
             \<and> abortControllerRef s' = None
             \<and> (\<forall>evs. foldl (emit sf i) s' evs = s'))"
proof -
  define s' where "s' = on_function sf i fname fargs s"
  note len = assms(1) and pend = assms(3)
  have e: "emit sf i s (FunctionEvent fname fargs) = s'"
    using assms by (simp add: emit_def s'_def)
  have len': "i < length (cycles s')"
    using len by (simp add: s'_def on_function_def cleanup_def update_cycle_def Let_def)
  have off: "listeners (cycles s' ! i) = []"
    using len
    by (simp add: s'_def on_function_def cleanup_def update_cycle_def Let_def off_all settle_def
        split: settlement.splits)
  have quiet: "\<forall>evs. foldl (emit sf i) s' evs = s'"
    using len' off by (simp add: emits_detached)
  have "assistantMessage (cycles s' ! i) = (assistantMessage (cycles s ! i))
           \<lparr>function_call := Some \<lparr>fc_name = Some fname, arguments = sf fargs\<rparr>\<rparr>"
    and "messages s' = history (cycles s ! i) @ [(assistantMessage (cycles s ! i))
           \<lparr>function_call := Some \<lparr>fc_name = Some fname, arguments = sf fargs\<rparr>\<rparr>]"
    and "promise (cycles s' ! i) = Resolved ((assistantMessage (cycles s ! i))
           \<lparr>function_call := Some \<lparr>fc_name = Some fname, arguments = sf fargs\<rparr>\<rparr>)"
    and "\<not> isLoading s'" and "abortControllerRef s' = None"
    using len pend
    by (simp_all add: s'_def on_function_def cleanup_def update_cycle_def Let_def settle_def)
  then show ?thesis
    using e quiet by (simp add: Let_def)
qed

theorem function_call_ends_cycle_witness:
  "0 < length (cycles streaming)
   \<and> attached OnFunction (listeners (cycles streaming ! 0))
   \<and> promise (cycles streaming ! 0) = Pending
   \<and> messages (emit (\<lambda>a :: unit. Some ''{}'') 0 streaming (FunctionEvent ''getWeather'' ()))
       = [hi, \<lparr>msg_id = ''a1'', createdAt = Some 7, content = ''He'', role = Assistant,
               function_call = Some \<lparr>fc_name = Some ''getWeather'', arguments = Some ''{}''\<rparr>\<rparr>]
   \<and> \<not> isLoading (emit (\<lambda>a :: unit. Some ''{}'') 0 streaming (FunctionEvent ''getWeather'' ()))"
proof -
  have h: "0 < length (cycles streaming)"
    "attached OnFunction (listeners (cycles streaming ! 0))"
    "promise (cycles streaming ! 0) = Pending"
    by (simp_all add: streaming_state new_cycle_def attached_def)
  show ?thesis
    using h function_call_ends_cycle
      [OF h, of "\<lambda>a :: unit. Some ''{}''" "''getWeather''" "()"]
    by (simp add: Let_def) (simp add: streaming_state new_cycle_def new_assistant_def)
qed

section \<open>The chat hook: stop\<close>

text \<open>
  \<open>stop\<close> on the current cycle rejects the cycle's promise with the \<open>AbortError\<close>
  exception, and with it the promise that \<open>append\<close> or \<open>reload\<close> returned; it clears the
  flag and the ref, and whatever the cycle's client emits afterwards changes nothing. An
  error event on the same cycle rejects with the error the client gave.
\<close>

lemma stop_ends_the_current_cycle:
  assumes "in_flight s i"
  shows "(let s' = stop s
          in promise (cycles s' ! i) = Rejected AbortError
             \<and> runChatCompletionAndHandleFunctionCall h (cycles s' ! i) = TurnRejected AbortError
             \<and> \<not> isLoading s'
             \<and> abortControllerRef s' = None
             \<and> messages s' = messages s
             \<and> (\<forall>evs. foldl (emit sf i) s' evs = s'))
         \<and> (\<forall>e. promise (cycles (emit sf i s (ErrorEvent e)) ! i) = Rejected e)"
proof -
  define s' where "s' = abort i s"
  have len: "i < length (cycles s)" and pend: "promise (cycles s ! i) = Pending"
    and ls: "listeners (cycles s ! i) = [OnFunction, OnError, OnEnd, OnContent]"
    and ref: "abortControllerRef s = Some i" and na: "\<not> aborted (cycles s ! i)"
    using assms by (simp_all add: in_flight_def)
  have st: "stop s = s'"
    using ref by (simp add: stop_def s'_def)
  have len': "i < length (cycles s')"
    using len na by (simp add: s'_def abort_def cleanup_def update_cycle_def)
  have off: "listeners (cycles s' ! i) = []"
    using len na
    by (simp add: s'_def abort_def cleanup_def update_cycle_def off_all settle_def
        split: settlement.splits)
  have quiet: "\<forall>evs. foldl (emit sf i) s' evs = s'"
    using len' off by (simp add: emits_detached)
  have rej: "promise (cycles s' ! i) = Rejected AbortError"
    and "\<not> isLoading s'" and "abortControllerRef s' = None" and "messages s' = messages s"
    using len na pend
    by (simp_all add: s'_def abort_def cleanup_def update_cycle_def settle_def)
  moreover have "runChatCompletionAndHandleFunctionCall h (cycles s' ! i) = TurnRejected AbortError"
    by (simp add: runChatCompletionAndHandleFunctionCall_def rej)
  moreover have "\<forall>e. promise (cycles (emit sf i s (ErrorEvent e)) ! i) = Rejected e"
    using len ls pend
    by (simp add: emit_def attached_def on_error_def cleanup_def update_cycle_def settle_def)
  ultimately show ?thesis
    using st quiet by (simp add: Let_def)
qed

text \<open>\<open>stop\<close> reaches a cycle through the ref only.\<close>

lemma stop_without_ref: "abortControllerRef s = None \<Longrightarrow> stop s = s"
  by (simp add: stop_def)

text \<open>
  Claim C6. The claim has \<open>stop\<close> end every cycle in flight. The ref holds one
  controller, the last one stored: after \<^verbatim>\<open>h.append(hi); h.append(again)\<close> two cycles are
  attached and pending, and \<open>stop\<close> aborts the second only. The first cycle's promise
  stays pending and its callbacks stay attached, a second \<open>stop\<close> finds the ref empty,
  and a content frame of the first cycle that arrives after \<open>stop\<close> replaces the
  published list.
\<close>

theorem stop_leaves_the_older_cycle:
  "promise (cycles asked_twice ! 0) = Pending
   \<and> listeners (cycles asked_twice ! 0) = [OnFunction, OnError, OnEnd, OnContent]
   \<and> promise (cycles (stop asked_twice) ! 1) = Rejected AbortError
   \<and> promise (cycles (stop asked_twice) ! 0) = Pending
   \<and> listeners (cycles (stop asked_twice) ! 0) = [OnFunction, OnError, OnEnd, OnContent]
   \<and> stop (stop asked_twice) = stop asked_twice
   \<and> messages (stop asked_twice) = [again, new_assistant ''a2'' 8]
   \<and> messages (emit (\<lambda>a :: unit. None) 0 (stop asked_twice) (ContentEvent ''He''))
       = [hi, (new_assistant ''a1'' 7)\<lparr>content := ''He''\<rparr>]"
proof -
  have st: "stop asked_twice =
     \<lparr>messages = [again, new_assistant ''a2'' 8], isLoading = False, abortControllerRef = None,
      cycles = [new_cycle [] ''a1'' 7 [hi],
                (new_cycle [] ''a2'' 8 [again])
                  \<lparr>listeners := [], aborted := True, promise := Rejected AbortError\<rparr>]\<rparr>"
    by (simp add: asked_twice_state stop_def abort_def cleanup_def update_cycle_def settle_def
        client_off_def new_cycle_def)
  have before: "promise (cycles asked_twice ! 0) = Pending"
    "listeners (cycles asked_twice ! 0) = [OnFunction, OnError, OnEnd, OnContent]"
    by (simp_all add: asked_twice_state new_cycle_def)
  have after: "promise (cycles (stop asked_twice) ! 1) = Rejected AbortError"
    "promise (cycles (stop asked_twice) ! 0) = Pending"
    "listeners (cycles (stop asked_twice) ! 0) = [OnFunction, OnError, OnEnd, OnContent]"
    "messages (stop asked_twice) = [again, new_assistant ''a2'' 8]"
    "abortControllerRef (stop asked_twice) = None"
    by (simp_all add: st new_cycle_def)
  have again: "stop (stop asked_twice) = stop asked_twice"
    using after(5) by (rule stop_without_ref)
  have late: "messages (emit (\<lambda>a :: unit. None) 0 (stop asked_twice) (ContentEvent ''He''))
       = [hi, (new_assistant ''a1'' 7)\<lparr>content := ''He''\<rparr>]"
    by (simp add: st emit_def attached_def on_content_def update_cycle_def new_cycle_def
        new_assistant_def Let_def)
  show ?thesis
    by (intro conjI before after(1-4) again late)
qed

section \<open>The chat hook: reload\<close>

text \<open>
  The helper \<open>reload\<close> of a render returns at once when that render saw the flag set or
  an empty history. Otherwise it starts a cycle: over the render's history without its
  last message when that message is the assistant's, over the whole of it when it is
  not. Starting a cycle publishes the kept messages followed by an empty assistant
  message, sets the flag and the ref, and sends the initial messages followed by the
  kept ones.
\<close>

lemma reload_of_a_render:
  "(rendered_isLoading r \<or> rendered_messages r = [] \<longrightarrow> reload init new_id now r s = (None, s))
   \<and> (\<not> rendered_isLoading r \<and> rendered_messages r \<noteq> [] \<longrightarrow>
        (let kept = (if role (last (rendered_messages r)) = Assistant
                     then butlast (rendered_messages r) else rendered_messages r);
             (p, s') = reload init new_id now r s
         in p = Some (length (cycles s))
            \<and> messages s' = kept @ [new_assistant new_id now]
            \<and> isLoading s'
            \<and> abortControllerRef s' = Some (length (cycles s))
            \<and> cycles s' = cycles s @ [new_cycle init new_id now kept]
            \<and> request (cycles s' ! length (cycles s)) = init @ kept))"
proof (intro conjI impI)
  assume "rendered_isLoading r \<or> rendered_messages r = []"
  then show "reload init new_id now r s = (None, s)"
    by (auto simp: reload_def)
next
  assume a: "\<not> rendered_isLoading r \<and> rendered_messages r \<noteq> []"
  then have l: "rendered_messages r ! (length (rendered_messages r) - Suc 0)
                = last (rendered_messages r)"
    and b: "take (length (rendered_messages r) - Suc 0) (rendered_messages r)
            = butlast (rendered_messages r)"
    by (simp_all add: last_conv_nth butlast_conv_take)
  show "(let kept = (if role (last (rendered_messages r)) = Assistant
                     then butlast (rendered_messages r) else rendered_messages r);
             (p, s') = reload init new_id now r s
         in p = Some (length (cycles s))
            \<and> messages s' = kept @ [new_assistant new_id now]
            \<and> isLoading s'
            \<and> abortControllerRef s' = Some (length (cycles s))
            \<and> cycles s' = cycles s @ [new_cycle init new_id now kept]
            \<and> request (cycles s' ! length (cycles s)) = init @ kept)"
    using a by (simp add: reload_def Let_def l b runChatCompletion_state new_cycle_def)
qed

text \<open>
  Claim C7. The claim has \<open>reload\<close> do nothing while a cycle is in flight. Its other
  three cases hold of every render (lemma \<open>reload_of_a_render\<close>); this one holds of the
  renders that saw the flag set only. After the answer \<open>Hello\<close>, \<^verbatim>\<open>h.reload()\<close> drops
  the answer and starts a cycle over \<open>hi\<close>, which is then in flight; \<^verbatim>\<open>h.reload()\<close>
  again, through the same render's helper, starts another cycle over \<open>hi\<close> and leaves
  the one before attached and pending.
\<close>

theorem second_reload_of_a_render_starts_a_cycle:
  "reload [] ''a2'' 8 (render answered) answered = (Some 1, reloaded_once)
   \<and> in_flight reloaded_once 1
   \<and> history (cycles reloaded_once ! 1) = [hi]
   \<and> reload [] ''a3'' 9 (render answered) reloaded_once = (Some 2, reloaded_twice)
   \<and> length (cycles reloaded_twice) = 3
   \<and> messages reloaded_twice = [hi, new_assistant ''a3'' 9]
   \<and> abortControllerRef reloaded_twice = Some 2
   \<and> listeners (cycles reloaded_twice ! 1) = [OnFunction, OnError, OnEnd, OnContent]
   \<and> promise (cycles reloaded_twice ! 1) = Pending
   \<and> listeners (cycles reloaded_twice ! 2) = [OnFunction, OnError, OnEnd, OnContent]
   \<and> promise (cycles reloaded_twice ! 2) = Pending"
proof -
  have r: "\<not> rendered_isLoading (render answered)"
    "rendered_messages (render answered) = [hi, (new_assistant ''a1'' 7)\<lparr>content := ''Hello''\<rparr>]"
    by (simp_all add: render_def answered_state)
  have one: "reload [] ''a2'' 8 (render answered) answered = (Some 1, reloaded_once)"
    using reload_of_a_render [of "render answered" "[]" "''a2''" 8 answered]
    by (simp add: r reloaded_once_def Let_def split_beta new_assistant_def)
       (simp add: prod_eq_iff answered_state)
  have two: "reload [] ''a3'' 9 (render answered) reloaded_once = (Some 2, reloaded_twice)"
    using reload_of_a_render [of "render answered" "[]" "''a3''" 9 reloaded_once]
    by (simp add: r reloaded_twice_def Let_def split_beta new_assistant_def)
       (simp add: prod_eq_iff reloaded_once_state answered_state)
  have "in_flight reloaded_once 1"
    by (simp add: reloaded_once_state answered_state in_flight_def new_cycle_def)
  then show ?thesis
    using one two
    by (simp add: reloaded_twice_state reloaded_once_state answered_state new_cycle_def)
qed

section \<open>Single flight when React renders before every call\<close>

lemma in_flight_unique: "in_flight s i \<Longrightarrow> in_flight s j \<Longrightarrow> i = j"
  by (simp add: in_flight_def)

lemma single_flight_idle: "single_flight initial_chat"
  by (simp add: single_flight_def initial_chat_def)

lemma single_flight_run:
  assumes "single_flight s" and "\<not> isLoading s"
  shows "single_flight (snd (runChatCompletion init new_id now msgs (s\<lparr>messages := ms\<rparr>)))"
proof -
  let ?s' = "snd (runChatCompletion init new_id now msgs (s\<lparr>messages := ms\<rparr>))"
  have idle: "listeners (cycles s ! j) = []" if "j < length (cycles s)" for j
    using assms that by (auto simp: single_flight_def in_flight_def)
  have new: "in_flight ?s' (length (cycles s))"
    using runChatCompletion_in_flight [of init new_id now msgs "s\<lparr>messages := ms\<rparr>"] by simp
  have old: "listeners (cycles ?s' ! j) = []" if "j < length (cycles s)" for j
    using that idle by (simp add: runChatCompletion_state nth_append)
  have len: "length (cycles ?s') = Suc (length (cycles s))"
    by (simp add: runChatCompletion_state)
  have ref: "abortControllerRef ?s' = Some (length (cycles s))"
    by (simp add: runChatCompletion_state)
  show ?thesis
    unfolding single_flight_def len ref using new old
    by (auto simp: less_Suc_eq)
qed

lemma single_flight_append:
  "single_flight s \<Longrightarrow> single_flight (snd (append_message init new_id now (render s) m s))"
  using single_flight_run [of s init new_id now "messages s @ [m]" "messages s @ [m]"]
  by (simp add: append_message_def render_def Let_def split_beta)

lemma single_flight_reload:
  "single_flight s \<Longrightarrow> single_flight (snd (reload init new_id now (render s) s))"
  using single_flight_run [of s init new_id now]
  by (simp add: reload_def render_def Let_def split_beta)

text \<open>When a cycle ends, by any of its three ends or by an abort, nothing is in flight.\<close>

lemma single_flight_ended:
  assumes "single_flight s" and "in_flight s i"
    and "cycles s' = (cycles s)[i := c]" and "listeners c = []"
    and "\<not> isLoading s'" and "abortControllerRef s' = None"
  shows "single_flight s'"
proof -
  have others: "listeners (cycles s ! j) = []" if "j < length (cycles s)" "j \<noteq> i" for j
    using assms(1,2) that in_flight_unique by (auto simp: single_flight_def)
  have "listeners (cycles s' ! j) = []" if "j < length (cycles s')" for j
  proof (cases "j = i")
    case True
    with that show ?thesis by (simp add: assms(3,4))
  next
    case False
    with that show ?thesis by (simp add: assms(3) others)
  qed
  then show ?thesis
    unfolding single_flight_def using assms(5,6) by simp
qed

lemma single_flight_emit:
  assumes "single_flight s"
  shows "single_flight (emit sf i s ev)"
proof (cases "i < length (cycles s) \<and> attached (channel_of ev) (listeners (cycles s ! i))")
  case False
  then have "emit sf i s ev = s" by (auto simp: emit_def)
  then show ?thesis using assms by simp
next
  case True
  then have len: "i < length (cycles s)" and "listeners (cycles s ! i) \<noteq> []"
    by (auto simp: attached_def)
  then have fl: "in_flight s i"
    using assms by (auto simp: single_flight_def)
  show ?thesis
  proof (cases ev)
    case (ContentEvent t)
    have others: "listeners (cycles s ! j) = []" if "j < length (cycles s)" "j \<noteq> i" for j
      using assms fl that in_flight_unique by (auto simp: single_flight_def)
    have "in_flight (emit sf i s ev) i"
      unfolding ContentEvent using fl by (rule content_keeps_in_flight)
    moreover have "emit sf i s ev = on_content i t s"
      using True ContentEvent by (simp add: emit_def)
    ultimately show ?thesis
      unfolding single_flight_def using others len
      by (auto simp: on_content_def update_cycle_def Let_def nth_list_update in_flight_def)
  next
    case EndEvent
    then have e: "emit sf i s ev = on_end i s"
      using True by (simp add: emit_def)
    show ?thesis
      unfolding e using assms fl
    proof (rule single_flight_ended)
      show "cycles (on_end i s) = (cycles s)[i := cycles (on_end i s) ! i]"
        using len by (simp add: on_end_def cleanup_def update_cycle_def Let_def)
      show "listeners (cycles (on_end i s) ! i) = []"
        using len
        by (simp add: on_end_def cleanup_def update_cycle_def Let_def off_all settle_def
            split: settlement.splits)
    qed (simp_all add: on_end_def cleanup_def update_cycle_def Let_def)
  next
    case (ErrorEvent x)
    then have e: "emit sf i s ev = on_error i x s"
      using True by (simp add: emit_def)
    show ?thesis
      unfolding e using assms fl
    proof (rule single_flight_ended)
      show "cycles (on_error i x s) = (cycles s)[i := cycles (on_error i x s) ! i]"
        using len by (simp add: on_error_def cleanup_def update_cycle_def)
      show "listeners (cycles (on_error i x s) ! i) = []"
        using len
        by (simp add: on_error_def cleanup_def update_cycle_def off_all settle_def
            split: settlement.splits)
    qed (simp_all add: on_error_def cleanup_def update_cycle_def)
  next
    case (FunctionEvent fname fargs)
    then have e: "emit sf i s ev = on_function sf i fname fargs s"
      using True by (simp add: emit_def)
    show ?thesis
      unfolding e using assms fl
    proof (rule single_flight_ended)
      show "cycles (on_function sf i fname fargs s)
              = (cycles s)[i := cycles (on_function sf i fname fargs s) ! i]"
        using len by (simp add: on_function_def cleanup_def update_cycle_def Let_def)
      show "listeners (cycles (on_function sf i fname fargs s) ! i) = []"
        using len
        by (simp add: on_function_def cleanup_def update_cycle_def Let_def off_all settle_def
            split: settlement.splits)
    qed (simp_all add: on_function_def cleanup_def update_cycle_def Let_def)
  qed
qed

lemma single_flight_stop:
  assumes "single_flight s"
  shows "single_flight (stop s)"
proof (cases "abortControllerRef s")
  case None
  then show ?thesis using assms by (simp add: stop_def)
next
  case (Some i)
  then have fl: "in_flight s i"
    using assms by (simp add: single_flight_def)
  then have len: "i < length (cycles s)" and na: "\<not> aborted (cycles s ! i)"
    by (simp_all add: in_flight_def)
  have st: "stop s = abort i s"
    using Some by (simp add: stop_def)
  show ?thesis
    unfolding st using assms fl
  proof (rule single_flight_ended)
    show "cycles (abort i s) = (cycles s)[i := cycles (abort i s) ! i]"
      using len na by (simp add: abort_def cleanup_def update_cycle_def)
    show "listeners (cycles (abort i s) ! i) = []"
      using len na
      by (simp add: abort_def cleanup_def update_cycle_def off_all settle_def
          split: settlement.splits)
  qed (use len na in \<open>simp_all add: abort_def cleanup_def update_cycle_def\<close>)
qed

text \<open>
  In a run in which React has rendered before every call, the flag is set exactly when
  there is a current cycle, and no other cycle is attached to its client. The helpers of
  an older render are outside such runs; \<open>asked_twice\<close> is what they reach.
\<close>

lemma rerendered_single_flight: "rerendered sf init s \<Longrightarrow> single_flight s"
proof (induction rule: rerendered.induct)
  case idle
  show ?case by (rule single_flight_idle)
next
  case (appended s new_id now m)
  then show ?case by (simp add: single_flight_append)
next
  case (reloaded s new_id now)
  then show ?case by (simp add: single_flight_reload)
next
  case (stopped s)
  then show ?case by (simp add: single_flight_stop)
next
  case (emitted s i ev)
  then show ?case by (simp add: single_flight_emit)
qed

lemma rerendered_loading_in_flight:
  assumes "rerendered sf init s"
  shows "isLoading s \<longleftrightarrow> (\<exists>i. in_flight s i)"
  using rerendered_single_flight [OF assms]
  by (auto simp: single_flight_def in_flight_def)

lemma asked_twice_not_single_flight: "\<not> single_flight asked_twice"
  by (auto simp: single_flight_def asked_twice_state in_flight_def new_cycle_def
      dest!: spec [of _ 0])

end
